theory Spec2Isabelle
  imports Main "HOL-Library.Sublist"
begin

section \<open>Python values, errors and dictionaries\<close>

text \<open>
  The helpers of \<^verbatim>\<open>cherimoya_cdk/utils.py\<close> work on strings, on dictionaries with string
  keys and on the logging registry. A raised exception is a value of type \<open>error\<close>; a function
  that can raise returns \<open>error + 'a\<close> with \<open>Inl\<close> for the exception.
\<close>

datatype error = AssertionError | TypeError | KeyError string | ValueError

text \<open>
  The kinds of a parameter in a signature, as \<^verbatim>\<open>inspect.Parameter.kind\<close> has them.
\<close>

datatype param_kind =
  POSITIONAL_ONLY | POSITIONAL_OR_KEYWORD | VAR_POSITIONAL | KEYWORD_ONLY | VAR_KEYWORD

text \<open>
  A class is known here by the parameters of its \<^verbatim>\<open>__init__\<close>, in declaration order
  (\<^verbatim>\<open>signature(cls.__init__).parameters\<close>).
\<close>

record pyclass =
  class_name :: string
  init_parameters :: "(string \<times> param_kind) list"

text \<open>
  The values a local variable can hold. A dictionary is the list of its items in insertion
  order; a well-formed dictionary has each key once. An instance carries its class and the
  result of \<^verbatim>\<open>bool(instance)\<close>, which is \<^verbatim>\<open>True\<close> unless the class defines
  \<^verbatim>\<open>__bool__\<close> or \<^verbatim>\<open>__len__\<close>.
\<close>

datatype pyval =
    PNone
  | PBool bool
  | PInt int
  | PStr string
  | PDict "(string \<times> pyval) list"
  | PInstance pyclass bool

type_synonym 'v pydict = "(string \<times> 'v) list"

text \<open>Truth value testing, as \<^verbatim>\<open>assert x\<close> and \<^verbatim>\<open>x or y\<close> perform it.\<close>

fun truthy :: "pyval \<Rightarrow> bool" where
  "truthy PNone = False"
| "truthy (PBool b) = b"
| "truthy (PInt n) = (n \<noteq> 0)"
| "truthy (PStr s) = (s \<noteq> [])"
| "truthy (PDict d) = (d \<noteq> [])"
| "truthy (PInstance c b) = b"

text \<open>
  \<^verbatim>\<open>d[k] = v\<close>: an existing key keeps its position and takes the new value, a new key goes
  to the end.
\<close>

fun dict_set :: "string \<Rightarrow> 'v \<Rightarrow> 'v pydict \<Rightarrow> 'v pydict" where
  "dict_set k v [] = [(k, v)]"
| "dict_set k v ((k', v') # d) =
     (if k' = k then (k, v) # d else (k', v') # dict_set k v d)"

text \<open>\<^verbatim>\<open>d.update(e)\<close>, which is also what \<^verbatim>\<open>{**d, **e}\<close> does to a copy of \<open>d\<close>.\<close>

fun dict_update :: "'v pydict \<Rightarrow> 'v pydict \<Rightarrow> 'v pydict" where
  "dict_update d [] = d"
| "dict_update d ((k, v) # e) = dict_update (dict_set k v d) e"

text \<open>\<^verbatim>\<open>del d[k]\<close> for a key that is present.\<close>

definition dict_del :: "string \<Rightarrow> 'v pydict \<Rightarrow> 'v pydict" where
  "dict_del k d = filter (\<lambda>(k', v). k' \<noteq> k) d"

section \<open>String methods\<close>

text \<open>
  A string is the list of the bytes of its UTF-8 encoding: for ASCII text, one \<open>char\<close> per
  character. Concatenation, \<^verbatim>\<open>startswith\<close> and \<^verbatim>\<open>replace\<close> of a pattern that is not
  empty do to the encoding what Python does to the characters, since an encoded pattern
  matches an encoded text at character boundaries only.
  \<^verbatim>\<open>s.replace(old, new, count)\<close> replaces the leftmost non-overlapping occurrences of
  \<open>old\<close>, at most \<open>count\<close> of them (\<open>None\<close>: all of them). With an empty \<open>old\<close> the
  occurrences are the positions before each character and the end of the string; the one
  use of it here, in \<open>filter_kwargs\<close>, replaces the first of them by the empty string.
\<close>

fun dec_count :: "nat option \<Rightarrow> nat option" where
  "dec_count None = None"
| "dec_count (Some n) = Some (n - 1)"

fun insert_between :: "string \<Rightarrow> nat option \<Rightarrow> string \<Rightarrow> string" where
  "insert_between new cnt [] = (if cnt = Some 0 then [] else new)"
| "insert_between new cnt (x # xs) =
     (if cnt = Some 0 then x # xs else new @ x # insert_between new (dec_count cnt) xs)"

fun str_replace :: "string \<Rightarrow> string \<Rightarrow> nat option \<Rightarrow> string \<Rightarrow> string" where
  "str_replace old new cnt [] = (if old = [] then insert_between new cnt [] else [])"
| "str_replace old new cnt (x # xs) =
     (if old = [] then insert_between new cnt (x # xs)
      else if cnt = Some 0 then x # xs
      else if prefix old (x # xs)
        then new @ str_replace old new (dec_count cnt) (drop (length old) (x # xs))
      else x # str_replace old new cnt xs)"

text \<open>\<^verbatim>\<open>s.startswith(p)\<close>.\<close>

definition startswith :: "string \<Rightarrow> string \<Rightarrow> bool" where
  "startswith s p = prefix p s"



section \<open>gen\_name and stage\_based\_removal\_policy\<close>

text \<open>
  \<^verbatim>\<open>Stack.of(scope)\<close> is the framework's: a scope is represented by the stack it resolves
  to. The attribute \<^verbatim>\<open>stage\<close> is set by the user's stack class: \<open>None\<close> when the stack
  has no such attribute (\<^verbatim>\<open>hasattr\<close> is false), \<open>Some None\<close> when it is \<^verbatim>\<open>None\<close>,
  \<open>Some (Some s)\<close> when it is the label \<open>s\<close>. A stage is a string: \<open>gen_name\<close> appends
  it with \<^verbatim>\<open>"-" + stack.stage\<close>.

  \<^verbatim>\<open>result.lower()\<close> is Python's: it folds every cased letter of Unicode and can change
  the length of the string. It is the parameter \<open>str_lower\<close> of \<open>gen_name\<close>, which says
  where the program applies it and to what.
\<close>

record stack =
  stack_name :: string
  stage :: "string option option"

record scope =
  Stack_of :: stack

datatype removal_policy = RETAIN | DESTROY

definition gen_name ::
  "(string \<Rightarrow> string) \<Rightarrow> scope \<Rightarrow> string \<Rightarrow> bool \<Rightarrow> bool \<Rightarrow> bool \<Rightarrow> string" where
  "gen_name str_lower sc ident globalize all_lower clean_string =
     (let stk = Stack_of sc;
          result = stack_name stk @ ''-'' @ ident;
          result = (if globalize \<and> stage stk \<noteq> None
                    then (case the (stage stk) of
                            Some st \<Rightarrow> result @ ''-'' @ st
                          | None \<Rightarrow> result)
                    else result);
          result = (if all_lower then str_lower result else result);
          result = (if clean_string
                    then str_replace ''.'' ''-'' None (str_replace ''_'' ''-'' None result)
                    else result)
      in result)"

definition stage_based_removal_policy :: "scope \<Rightarrow> removal_policy" where
  "stage_based_removal_policy sc =
     (let stk = Stack_of sc
      in if stage stk \<noteq> None \<and> the (stage stk) = Some ''PROD'' then RETAIN else DESTROY)"

section \<open>get\_params\<close>

text \<open>
  \<^verbatim>\<open>signature(type(x).__init__).parameters\<close>: the declared parameters for an instance of a
  user class; for a value of a built-in type \<^verbatim>\<open>__init__\<close> is a slot wrapper with the
  signature \<^verbatim>\<open>(self, /, *args, **kwargs)\<close>.
\<close>

definition builtin_init_parameters :: "(string \<times> param_kind) list" where
  "builtin_init_parameters =
     [(''self'', POSITIONAL_ONLY), (''args'', VAR_POSITIONAL), (''kwargs'', VAR_KEYWORD)]"

fun signature_parameters :: "pyval \<Rightarrow> (string \<times> param_kind) list" where
  "signature_parameters (PInstance c b) = init_parameters c"
| "signature_parameters v = builtin_init_parameters"

text \<open>
  The filter of the comprehension:
  \<^verbatim>\<open>parameters.get(k) and parameters[k].kind == parameters[k].KEYWORD_ONLY\<close>.
\<close>

definition is_keyword_only :: "(string \<times> param_kind) list \<Rightarrow> string \<Rightarrow> bool" where
  "is_keyword_only parameters k =
     (case map_of parameters k of None \<Rightarrow> False | Some kind \<Rightarrow> kind = KEYWORD_ONLY)"

text \<open>
  The two \<^verbatim>\<open>assert\<close> statements are executed (the interpreter's default mode). A
  \<^verbatim>\<open>kwargs\<close> value that is falsy is read as the empty dictionary; unpacking a truthy value
  that is not a dictionary with \<^verbatim>\<open>**\<close> raises \<^verbatim>\<open>TypeError\<close>.
\<close>

definition get_params :: "pyval pydict \<Rightarrow> error + pyval pydict" where
  "get_params allvars =
     (case map_of allvars ''self'' of
        None \<Rightarrow> Inl AssertionError
      | Some slf \<Rightarrow>
          if \<not> truthy slf then Inl AssertionError
          else (case map_of allvars ''kwargs'' of
                  None \<Rightarrow> Inl AssertionError
                | Some kwv \<Rightarrow>
                    let kwargs = (if truthy kwv then kwv else PDict []);
                        parameters = signature_parameters slf;
                        selected = dict_update []
                          (filter (\<lambda>(k, v). is_keyword_only parameters k) allvars)
                    in (case kwargs of
                          PDict kw \<Rightarrow> Inr (dict_update selected kw)
                        | _ \<Rightarrow> Inl TypeError)))"

section \<open>filter\_kwargs and remove\_params\<close>

text \<open>
  Dictionaries are objects: \<open>remove_params\<close> changes the one it is given, and
  \<open>filter_kwargs\<close> builds another one. The store holds the dictionary objects, a reference
  is the position of an object in it, and a new object goes to the end.
\<close>

type_synonym 'v heap = "'v pydict list"

type_synonym ref = nat

text \<open>
  The comprehension of \<open>filter_kwargs\<close>: the items whose key starts with the prefix, in
  order, each stored under \<^verbatim>\<open>k.replace(filter, "", 1)\<close>.
\<close>

definition filter_kwargs_items :: "'v pydict \<Rightarrow> string \<Rightarrow> 'v pydict" where
  "filter_kwargs_items kwargs filter_str =
     dict_update []
       (map (\<lambda>(k, v). (str_replace filter_str [] (Some 1) k, v))
          (filter (\<lambda>(k, v). startswith k filter_str) kwargs))"

definition filter_kwargs :: "'v heap \<Rightarrow> ref \<Rightarrow> string \<Rightarrow> 'v heap \<times> ref" where
  "filter_kwargs h kwargs filter_str =
     (h @ [filter_kwargs_items (h ! kwargs) filter_str], length h)"

text \<open>\<^verbatim>\<open>d.pop(p)\<close>: the value and the dictionary without the key, or \<^verbatim>\<open>KeyError\<close>.\<close>

definition dict_pop :: "'v pydict \<Rightarrow> string \<Rightarrow> error + ('v \<times> 'v pydict)" where
  "dict_pop d p =
     (case map_of d p of
        None \<Rightarrow> Inl (KeyError p)
      | Some v \<Rightarrow> Inr (v, dict_del p d))"

text \<open>
  \<^verbatim>\<open>[kwargs.pop(p) for p in params]\<close>: each \<open>pop\<close> changes the object; the first that
  raises ends the loop with the object as it is then. The list of popped values is dropped.
\<close>

fun remove_params :: "'v heap \<Rightarrow> ref \<Rightarrow> string list \<Rightarrow> 'v heap \<times> (error + unit)" where
  "remove_params h kwargs [] = (h, Inr ())"
| "remove_params h kwargs (p # params) =
     (case dict_pop (h ! kwargs) p of
        Inl e \<Rightarrow> (h, Inl e)
      | Inr (v, d) \<Rightarrow> remove_params (h[kwargs := d]) kwargs params)"

section \<open>setup\_logger\<close>

text \<open>
  The logging registry of the process: the loggers by key, each with its level and its
  attached handlers. \<^verbatim>\<open>logging.getLogger(name)\<close> returns the root logger for
  \<^verbatim>\<open>None\<close>, the empty name and the name \<^verbatim>\<open>root\<close>, and otherwise the logger registered
  under the name, which it creates on first use (level \<^verbatim>\<open>NOTSET\<close>, no handler). The root
  logger starts at level \<^verbatim>\<open>WARNING\<close>. A logger object is never replaced: the key is the
  identity of the logger.
\<close>

datatype logger_ref = Root | Named string

record handler =
  handler_name :: "string option"
  handler_level :: int
  handler_format :: string

record logger =
  logger_level :: int
  handlers :: "handler list"

text \<open>The two messages \<open>setup_logger\<close> passes to \<^verbatim>\<open>logger.info\<close>.\<close>

datatype log_message = AlreadyInitialized "string option" | Configured "string option" int

record logging_state =
  registry :: "logger_ref \<Rightarrow> logger option"
  environ_LOGLEVEL :: "string option"
  info_calls :: "(logger_ref \<times> log_message) list"

definition DEFAULT_LOGLEVEL :: string where
  "DEFAULT_LOGLEVEL = ''INFO''"

definition default_formatstr :: string where
  "default_formatstr = ''%(asctime)s | %(levelname)-8s | %(message)s''"

definition logger_key :: "string option \<Rightarrow> logger_ref" where
  "logger_key name =
     (case name of
        None \<Rightarrow> Root
      | Some n \<Rightarrow> if n = [] \<or> n = ''root'' then Root else Named n)"

definition new_logger :: "logger_ref \<Rightarrow> logger" where
  "new_logger r =
     (case r of
        Root \<Rightarrow> \<lparr>logger_level = 30, handlers = []\<rparr>
      | Named n \<Rightarrow> \<lparr>logger_level = 0, handlers = []\<rparr>)"

definition the_logger :: "(logger_ref \<Rightarrow> logger option) \<Rightarrow> logger_ref \<Rightarrow> logger" where
  "the_logger reg r = (case reg r of None \<Rightarrow> new_logger r | Some l \<Rightarrow> l)"

definition getLogger :: "string option \<Rightarrow> logging_state \<Rightarrow> logging_state \<times> logger_ref" where
  "getLogger name st =
     (let r = logger_key name
      in (st\<lparr>registry := (registry st)(r \<mapsto> the_logger (registry st) r)\<rparr>, r))"

text \<open>The level names of the logging module (\<^verbatim>\<open>logging._nameToLevel\<close>).\<close>

definition name_to_level :: "string \<Rightarrow> int option" where
  "name_to_level s =
     map_of [(''CRITICAL'', 50), (''FATAL'', 50), (''ERROR'', 40), (''WARN'', 30),
             (''WARNING'', 30), (''INFO'', 20), (''DEBUG'', 10), (''NOTSET'', 0)] s"

text \<open>
  A level is a number or a string. \<^verbatim>\<open>logging.getLevelName\<close> of a known name is its
  number, of another string the string \<^verbatim>\<open>Level \<close> followed by it; \<^verbatim>\<open>setLevel\<close>
  takes a number as it is and raises \<^verbatim>\<open>ValueError\<close> on a string that is no level name.
\<close>

datatype level_value = LevelInt int | LevelStr string

definition getLevelName :: "string \<Rightarrow> level_value" where
  "getLevelName s =
     (case name_to_level s of
        Some n \<Rightarrow> LevelInt n
      | None \<Rightarrow> LevelStr (''Level '' @ s))"

fun checkLevel :: "level_value \<Rightarrow> error + int" where
  "checkLevel (LevelInt n) = Inr n"
| "checkLevel (LevelStr s) =
     (case name_to_level s of Some n \<Rightarrow> Inr n | None \<Rightarrow> Inl ValueError)"

definition logger_handlers :: "logging_state \<Rightarrow> logger_ref \<Rightarrow> handler list" where
  "logger_handlers st r = handlers (the_logger (registry st) r)"

definition setLevel :: "logger_ref \<Rightarrow> int \<Rightarrow> logging_state \<Rightarrow> logging_state" where
  "setLevel r n st =
     st\<lparr>registry := (registry st)(r \<mapsto> (the_logger (registry st) r)\<lparr>logger_level := n\<rparr>)\<rparr>"

definition addHandler :: "logger_ref \<Rightarrow> handler \<Rightarrow> logging_state \<Rightarrow> logging_state" where
  "addHandler r hdlr st =
     st\<lparr>registry := (registry st)(r \<mapsto>
          (the_logger (registry st) r)\<lparr>handlers := logger_handlers st r @ [hdlr]\<rparr>)\<rparr>"

definition info :: "logger_ref \<Rightarrow> log_message \<Rightarrow> logging_state \<Rightarrow> logging_state" where
  "info r msg st = st\<lparr>info_calls := info_calls st @ [(r, msg)]\<rparr>"

text \<open>
  \<open>setup_logger\<close>, statement by statement. \<^verbatim>\<open>logging.Formatter(formatstr)\<close> checks the
  format string in the logging module (from Python 3.8 on) and raises \<^verbatim>\<open>ValueError\<close> when
  it rejects it; that check is the parameter \<open>format_ok\<close>. An exception leaves the registry
  as the statements before it made it, so the state is returned with the outcome.
\<close>

definition setup_logger ::
  "(string \<Rightarrow> bool) \<Rightarrow> string option \<Rightarrow> int option \<Rightarrow> string option \<Rightarrow> logging_state
     \<Rightarrow> logging_state \<times> (error + logger_ref)" where
  "setup_logger format_ok name level formatstr st =
     (let (st, lg) = getLogger name st;
          level = (case level of
                     None \<Rightarrow> getLevelName (case environ_LOGLEVEL st of
                                              None \<Rightarrow> DEFAULT_LOGLEVEL
                                            | Some s \<Rightarrow> s)
                   | Some n \<Rightarrow> LevelInt n)
      in if list_ex (\<lambda>h. handler_name h = name) (logger_handlers st lg)
         then (info lg (AlreadyInitialized name) st, Inr lg)
         else
           let formatstr = (case formatstr of
                              None \<Rightarrow> default_formatstr
                            | Some f \<Rightarrow> if f = [] then default_formatstr else f)
           in (case checkLevel level of
                 Inl e \<Rightarrow> (st, Inl e)
               | Inr n \<Rightarrow>
                   let st = setLevel lg n st
                   in if \<not> format_ok formatstr then (st, Inl ValueError)
                      else
                        let st = addHandler lg
                              \<lparr>handler_name = name, handler_level = n,
                               handler_format = formatstr\<rparr> st
                        in (info lg (Configured name n) st, Inr lg)))"

section \<open>Vocabulary of the properties and the data of the examples\<close>

text \<open>What \<open>clean_string\<close> does to one character.\<close>

definition hyphenate :: "char \<Rightarrow> char" where
  "hyphenate c = (if c = CHR ''_'' \<or> c = CHR ''.'' then CHR ''-'' else c)"

text \<open>
  What \<^verbatim>\<open>lower()\<close> does to a string of ASCII characters, as the strings of the
  examples are: the letters A to Z move to a to z, every other character stays.
\<close>

definition lower_ascii :: "string \<Rightarrow> string" where
  "lower_ascii s =
     map (\<lambda>c. let n = (of_char c :: nat)
               in if 65 \<le> n \<and> n \<le> 90 then char_of (n + 32) else c) s"


text \<open>
  The call of the docstring: \<^verbatim>\<open>foo("a", "b", d="DDD", foobar="baz")\<close> for
  \<^verbatim>\<open>def __init__(self, a, b, *, c=3, d=4, **kwargs)\<close>, and the \<^verbatim>\<open>locals()\<close> it sees.
\<close>

definition foo :: pyclass where
  "foo = \<lparr>class_name = ''foo'',
          init_parameters =
            [(''self'', POSITIONAL_OR_KEYWORD), (''a'', POSITIONAL_OR_KEYWORD),
             (''b'', POSITIONAL_OR_KEYWORD), (''c'', KEYWORD_ONLY), (''d'', KEYWORD_ONLY),
             (''kwargs'', VAR_KEYWORD)]\<rparr>"

definition foo_locals :: "pyval pydict" where
  "foo_locals =
     [(''self'', PInstance foo True), (''a'', PStr ''a''), (''b'', PStr ''b''),
      (''c'', PInt 3), (''d'', PStr ''DDD''),
      (''kwargs'', PDict [(''foobar'', PStr ''baz'')])]"

text \<open>
  The same call on a class whose instances are falsy while they are constructed (a class
  with \<^verbatim>\<open>__len__\<close>, empty at that time).
\<close>

definition empty_container_locals :: "pyval pydict" where
  "empty_container_locals =
     [(''self'', PInstance foo False), (''a'', PStr ''a''), (''b'', PStr ''b''),
      (''c'', PInt 3), (''d'', PStr ''DDD''),
      (''kwargs'', PDict [(''foobar'', PStr ''baz'')])]"

text \<open>The dictionary of the examples: \<^verbatim>\<open>{"a_b": 1, "a_c": 2, "b_abc": "x"}\<close>.\<close>

definition example_dict :: "pyval pydict" where
  "example_dict = [(''a_b'', PInt 1), (''a_c'', PInt 2), (''b_abc'', PStr ''x'')]"

text \<open>The store of the examples: one dictionary, \<^verbatim>\<open>{"a": 1, "b": 2, "c": 3}\<close>.\<close>

definition abc_store :: "pyval heap" where
  "abc_store = [[(''a'', PInt 1), (''b'', PInt 2), (''c'', PInt 3)]]"

text \<open>The dictionary \<open>d\<close> without the keys of \<open>ks\<close>, every other item as it was.\<close>

definition without_keys :: "string list \<Rightarrow> 'v pydict \<Rightarrow> 'v pydict" where
  "without_keys ks d = filter (\<lambda>(k, v). k \<notin> set ks) d"


text \<open>The handlers of a logger that carry the tag \<open>name\<close>, and the registry at start.\<close>

definition tagged :: "string option \<Rightarrow> logger_ref \<Rightarrow> logging_state \<Rightarrow> handler list" where
  "tagged name r st = filter (\<lambda>h. handler_name h = name) (logger_handlers st r)"


section \<open>Properties of the string methods\<close>

lemma str_replace_char:
  "str_replace [a] [b] None s = map (\<lambda>c. if c = a then b else c) s"
  by (induction s) auto

lemma clean_is_hyphenate:
  "str_replace ''.'' ''-'' None (str_replace ''_'' ''-'' None s) = map hyphenate s"
  by (simp add: str_replace_char hyphenate_def)

section \<open>Properties of gen\_name\<close>

text \<open>
  C3. For a scope whose stack is named \<open>S\<close>, \<open>gen_name\<close> returns \<open>S-id\<close>; with
  \<open>globalize\<close> and a stage attribute that is not \<^verbatim>\<open>None\<close> it appends \<open>-stage\<close>, and an
  absent or \<^verbatim>\<open>None\<close> stage appends nothing; with \<open>all_lower\<close> the result is
  \<^verbatim>\<open>lower()\<close> of that whole string; \<open>clean_string\<close> turns every underscore and period
  into a hyphen, after the case folding. This holds for every identifier, stack name and
  stage, whatever \<^verbatim>\<open>lower()\<close> does to their letters.
\<close>

theorem gen_name_format:
  "gen_name str_lower sc ident globalize all_lower clean_string =
     (let suffix = (if globalize then (case stage (Stack_of sc) of
                                         Some (Some st) \<Rightarrow> ''-'' @ st
                                       | Some None \<Rightarrow> ''''
                                       | None \<Rightarrow> '''')
                    else '''');
          plain = stack_name (Stack_of sc) @ ''-'' @ ident @ suffix;
          cased = (if all_lower then str_lower plain else plain)
      in if clean_string then map hyphenate cased else cased)"
  by (simp add: gen_name_def Let_def clean_is_hyphenate split: option.splits)

theorem gen_name_format_witness:
  "gen_name lower_ascii \<lparr>Stack_of = \<lparr>stack_name = ''My_Stack'', stage = Some (Some ''Dev.1'')\<rparr>\<rparr>
     ''Bucket_A'' True True True = ''my-stack-bucket-a-dev-1''
   \<and> gen_name lower_ascii \<lparr>Stack_of = \<lparr>stack_name = ''My_Stack'', stage = None\<rparr>\<rparr>
     ''Bucket_A'' True False False = ''My_Stack-Bucket_A''
   \<and> gen_name lower_ascii \<lparr>Stack_of = \<lparr>stack_name = ''My_Stack'', stage = Some None\<rparr>\<rparr>
     ''Bucket_A'' True False True = ''My-Stack-Bucket-A''"
  unfolding gen_name_format by code_simp

section \<open>Properties of stage\_based\_removal\_policy\<close>

text \<open>
  C8. The policy is \<open>RETAIN\<close> exactly when the stack has a stage attribute equal to
  \<open>PROD\<close>; in every other case, an absent attribute included, it is \<open>DESTROY\<close>.
\<close>

theorem removal_policy_prod_iff:
  "(stage_based_removal_policy sc = RETAIN) = (stage (Stack_of sc) = Some (Some ''PROD''))
   \<and> (stage_based_removal_policy sc = DESTROY) = (stage (Stack_of sc) \<noteq> Some (Some ''PROD''))"
  by (auto simp: stage_based_removal_policy_def Let_def)

section \<open>Properties of dictionaries\<close>

lemma map_of_dict_set: "map_of (dict_set k v d) = (map_of d)(k \<mapsto> v)"
  by (induction d) (auto simp: fun_eq_iff)

lemma keys_dict_set: "fst ` set (dict_set k v d) = insert k (fst ` set d)"
proof (induction d)
  case Nil
  show ?case by simp
next
  case (Cons e d)
  obtain k' v' where e: "e = (k', v')" by (cases e)
  show ?case using Cons.IH e by (cases "k' = k") auto
qed

lemma distinct_dict_set:
  "distinct (map fst d) \<Longrightarrow> distinct (map fst (dict_set k v d))"
proof (induction d)
  case Nil
  show ?case by simp
next
  case (Cons e d)
  obtain k' v' where e: "e = (k', v')" by (cases e)
  show ?case
  proof (cases "k' = k")
    case True
    with Cons.prems e show ?thesis by simp
  next
    case False
    have "k' \<notin> fst ` set (dict_set k v d)"
      using Cons.prems e False by (simp add: keys_dict_set)
    with Cons e False show ?thesis by simp
  qed
qed

lemma dict_set_fresh: "k \<notin> fst ` set d \<Longrightarrow> dict_set k v d = d @ [(k, v)]"
  by (induction d) auto

lemma dict_update_fresh:
  "distinct (map fst e) \<Longrightarrow> fst ` set d \<inter> fst ` set e = {} \<Longrightarrow> dict_update d e = d @ e"
proof (induction e arbitrary: d)
  case Nil
  show ?case by simp
next
  case (Cons x e)
  obtain k v where x: "x = (k, v)" by (cases x)
  have fresh: "k \<notin> fst ` set d" using Cons.prems(2) x by auto
  have "dict_update (d @ [(k, v)]) e = (d @ [(k, v)]) @ e"
  proof (rule Cons.IH)
    show "distinct (map fst e)" using Cons.prems(1) by simp
    show "fst ` set (d @ [(k, v)]) \<inter> fst ` set e = {}"
      using Cons.prems x by auto
  qed
  with fresh x show ?case by (simp add: dict_set_fresh)
qed

lemma dict_update_empty: "distinct (map fst e) \<Longrightarrow> dict_update [] e = e"
  using dict_update_fresh [of e "[]"] by simp

lemma map_add_upd_right:
  "map_of e k = None \<Longrightarrow> m(k \<mapsto> v) ++ map_of e = m ++ (map_of e)(k \<mapsto> v)"
  by (rule ext) (simp add: map_add_def split: option.splits)

lemma map_of_dict_update:
  "distinct (map fst e) \<Longrightarrow> map_of (dict_update d e) = map_of d ++ map_of e"
proof (induction e arbitrary: d)
  case Nil
  show ?case by simp
next
  case (Cons x e)
  obtain k v where x: "x = (k, v)" by (cases x)
  have k: "map_of e k = None"
    using Cons.prems x by (simp add: map_of_eq_None_iff)
  have e: "distinct (map fst e)" using Cons.prems by simp
  have "map_of (dict_update (dict_set k v d) e) = map_of (dict_set k v d) ++ map_of e"
    by (rule Cons.IH [OF e])
  also have "\<dots> = map_of d ++ (map_of e)(k \<mapsto> v)"
    by (simp only: map_of_dict_set map_add_upd_right [OF k])
  finally have "map_of (dict_update (dict_set k v d) e) = map_of d ++ (map_of e)(k \<mapsto> v)" .
  then show ?case
    unfolding x by (simp only: dict_update.simps map_of.simps fst_conv snd_conv)
qed

lemma distinct_dict_update:
  "distinct (map fst d) \<Longrightarrow> distinct (map fst (dict_update d e))"
  by (induction e arbitrary: d) (auto simp: distinct_dict_set)

lemma map_of_filter_keys:
  "map_of (filter (\<lambda>(k, v). P k) d) k = (if P k then map_of d k else None)"
  by (induction d) auto

lemma distinct_filter_keys:
  "distinct (map fst d) \<Longrightarrow> distinct (map fst (filter Q d))"
  by (simp add: distinct_map_filter)

section \<open>Properties of get\_params\<close>

lemma get_params_selected:
  assumes "distinct (map fst allvars)"
  shows "dict_update [] (filter (\<lambda>(k, v). is_keyword_only ps k) allvars) =
         filter (\<lambda>(k, v). is_keyword_only ps k) allvars"
  using assms by (intro dict_update_empty distinct_filter_keys)

text \<open>
  C1, as the code has it. For a snapshot (a well-formed dictionary) whose \<open>self\<close> entry is
  truthy and whose \<open>kwargs\<close> entry is a dictionary \<open>kw\<close>, or is falsy and then read as the
  empty dictionary, \<open>get_params\<close> returns a well-formed dictionary that holds the entries of
  \<open>kw\<close> and, for every other key, the snapshot's entry when the key is a keyword-only
  parameter of the constructor of the class of \<open>self\<close>, and nothing else.
\<close>

theorem get_params_merges:
  assumes wf: "distinct (map fst allvars)"
    and self_entry: "map_of allvars ''self'' = Some slf"
    and self_truthy: "truthy slf"
    and kwargs_entry: "map_of allvars ''kwargs'' = Some kwv"
    and kwargs_dict: "(kwv = PDict kw \<and> distinct (map fst kw)) \<or> (\<not> truthy kwv \<and> kw = [])"
  shows "\<exists>r. get_params allvars = Inr r \<and> distinct (map fst r) \<and>
           (\<forall>k. map_of r k =
              (case map_of kw k of
                 Some v \<Rightarrow> Some v
               | None \<Rightarrow> if is_keyword_only (signature_parameters slf) k
                         then map_of allvars k else None))"
proof -
  let ?sel = "filter (\<lambda>(k, v). is_keyword_only (signature_parameters slf) k) allvars"
  have kw_wf: "distinct (map fst kw)"
    using kwargs_dict by auto
  have kwargs: "(if truthy kwv then kwv else PDict []) = PDict kw"
    using kwargs_dict by (cases kwv) auto
  have res: "get_params allvars = Inr (dict_update ?sel kw)"
    using self_entry self_truthy kwargs_entry kwargs
    by (simp add: get_params_def get_params_selected [OF wf])
  have wf_res: "distinct (map fst (dict_update ?sel kw))"
    by (intro distinct_dict_update distinct_filter_keys wf)
  have look: "map_of (dict_update ?sel kw) k =
      (case map_of kw k of
         Some v \<Rightarrow> Some v
       | None \<Rightarrow> if is_keyword_only (signature_parameters slf) k
                 then map_of allvars k else None)" for k
    by (simp add: map_of_dict_update [OF kw_wf] map_add_def map_of_filter_keys
        split: option.splits)
  from res wf_res look show ?thesis by blast
qed

theorem get_params_merges_witness:
  "distinct (map fst foo_locals)
   \<and> map_of foo_locals ''self'' = Some (PInstance foo True)
   \<and> truthy (PInstance foo True)
   \<and> map_of foo_locals ''kwargs'' = Some (PDict [(''foobar'', PStr ''baz'')])
   \<and> get_params foo_locals =
       Inr [(''c'', PInt 3), (''d'', PStr ''DDD''), (''foobar'', PStr ''baz'')]
   \<and> (\<exists>r. get_params foo_locals = Inr r \<and> map_of r ''c'' = Some (PInt 3)
           \<and> map_of r ''d'' = Some (PStr ''DDD'') \<and> map_of r ''foobar'' = Some (PStr ''baz'')
           \<and> map_of r ''a'' = None \<and> map_of r ''self'' = None \<and> map_of r ''kwargs'' = None)"
proof -
  have h1: "distinct (map fst foo_locals)"
    by (simp add: foo_locals_def)
  have h2: "map_of foo_locals ''self'' = Some (PInstance foo True)"
    by (simp add: foo_locals_def)
  have h3: "truthy (PInstance foo True)"
    by simp
  have h4: "map_of foo_locals ''kwargs'' = Some (PDict [(''foobar'', PStr ''baz'')])"
    by (simp add: foo_locals_def)
  have h5: "(PDict [(''foobar'', PStr ''baz'')] = PDict [(''foobar'', PStr ''baz'')]
             \<and> distinct (map fst [(''foobar'', PStr ''baz'')]))
            \<or> (\<not> truthy (PDict [(''foobar'', PStr ''baz'')])
                \<and> [(''foobar'', PStr ''baz'')] = [])"
    by simp
  have run: "get_params foo_locals =
      Inr [(''c'', PInt 3), (''d'', PStr ''DDD''), (''foobar'', PStr ''baz'')]"
    by (simp add: get_params_def foo_locals_def foo_def is_keyword_only_def)
  from get_params_merges [OF h1 h2 h3 h4 h5] run
  have "\<exists>r. get_params foo_locals = Inr r \<and> map_of r ''c'' = Some (PInt 3)
           \<and> map_of r ''d'' = Some (PStr ''DDD'') \<and> map_of r ''foobar'' = Some (PStr ''baz'')
           \<and> map_of r ''a'' = None \<and> map_of r ''self'' = None \<and> map_of r ''kwargs'' = None"
    by (simp add: foo_locals_def foo_def is_keyword_only_def)
  with h1 h2 h3 h4 run show ?thesis by blast
qed

text \<open>
  C1 as stated asks only for the two entries to be there. A snapshot with both entries
  whose \<open>self\<close> is falsy makes \<open>get_params\<close> raise.
\<close>

theorem get_params_presence_counterexample:
  "map_of empty_container_locals ''self'' = Some (PInstance foo False)
   \<and> map_of empty_container_locals ''kwargs'' = Some (PDict [(''foobar'', PStr ''baz'')])
   \<and> get_params empty_container_locals = Inl AssertionError"
  by (simp add: get_params_def empty_container_locals_def)

text \<open>
  C2. A snapshot without an entry \<open>self\<close>, or without an entry \<open>kwargs\<close>, makes
  \<open>get_params\<close> raise \<open>AssertionError\<close>: it returns no dictionary.
\<close>

theorem get_params_missing_entry:
  assumes "''self'' \<notin> fst ` set allvars \<or> ''kwargs'' \<notin> fst ` set allvars"
  shows "get_params allvars = Inl AssertionError"
proof (cases "map_of allvars ''self''")
  case None
  then show ?thesis by (simp add: get_params_def)
next
  case (Some slf)
  then have "''self'' \<in> fst ` set allvars"
    by (metis map_of_eq_None_iff option.distinct(1))
  with assms have "map_of allvars ''kwargs'' = None"
    by (simp add: map_of_eq_None_iff)
  with Some show ?thesis by (simp add: get_params_def)
qed

theorem get_params_missing_entry_witness:
  "''self'' \<notin> fst ` set [(''kwargs'', PDict [])]
   \<and> get_params [(''kwargs'', PDict [])] = Inl AssertionError
   \<and> ''kwargs'' \<notin> fst ` set [(''self'', PInstance foo True), (''c'', PInt 3)]
   \<and> get_params [(''self'', PInstance foo True), (''c'', PInt 3)] = Inl AssertionError"
proof -
  have a: "''self'' \<notin> fst ` set [(''kwargs'', PDict [])]"
    by simp
  have b: "''kwargs'' \<notin> fst ` set [(''self'', PInstance foo True), (''c'', PInt 3)]"
    by simp
  from a have "get_params [(''kwargs'', PDict [])] = Inl AssertionError"
    by (intro get_params_missing_entry disjI1)
  moreover from b
  have "get_params [(''self'', PInstance foo True), (''c'', PInt 3)] = Inl AssertionError"
    by (intro get_params_missing_entry disjI2)
  ultimately show ?thesis using a b by blast
qed

text \<open>
  C9. An entry \<open>self\<close> that is present with a falsy value (\<^verbatim>\<open>None\<close>, \<^verbatim>\<open>0\<close>, the empty
  string) fails the first assertion: the value has to be truthy.
\<close>

theorem get_params_falsy_self:
  assumes "map_of allvars ''self'' = Some v" and "\<not> truthy v"
  shows "get_params allvars = Inl AssertionError"
  using assms by (simp add: get_params_def)

theorem get_params_falsy_self_witness:
  "get_params [(''self'', PNone), (''kwargs'', PDict [])] = Inl AssertionError
   \<and> get_params [(''self'', PInt 0), (''kwargs'', PDict [])] = Inl AssertionError
   \<and> get_params [(''self'', PStr []), (''kwargs'', PDict [])] = Inl AssertionError"
proof -
  have "get_params [(''self'', v), (''kwargs'', PDict [])] = Inl AssertionError"
    if "\<not> truthy v" for v
    using that by (intro get_params_falsy_self [of _ v]) simp_all
  from this [of PNone] this [of "PInt 0"] this [of "PStr []"]
  show ?thesis by simp
qed

section \<open>Properties of filter\_kwargs\<close>

lemma insert_between_zero: "insert_between new (Some 0) s = s"
  by (cases s) simp_all

lemma str_replace_zero: "str_replace old new (Some 0) s = s"
  by (cases s) (simp_all add: insert_between_zero)

lemma str_replace_prefix:
  "prefix p k \<Longrightarrow> str_replace p [] (Some (Suc 0)) k = drop (length p) k"
proof (cases k)
  case Nil
  assume "prefix p k"
  with Nil show ?thesis by simp
next
  case (Cons x xs)
  assume "prefix p k"
  with Cons show ?thesis
    by (cases "p = []") (simp_all add: insert_between_zero str_replace_zero)
qed

lemma filter_kwargs_renamed:
  "map (\<lambda>(k, v). (str_replace p [] (Some 1) k, v)) (filter (\<lambda>(k, v). startswith k p) d) =
   map (\<lambda>(k, v). (drop (length p) k, v)) (filter (\<lambda>(k, v). prefix p k) d)"
  by (induction d) (auto simp: startswith_def str_replace_prefix)

lemma drop_prefix_inj:
  "prefix p k \<Longrightarrow> prefix p k' \<Longrightarrow> drop (length p) k = drop (length p) k' \<Longrightarrow> k = k'"
  by (auto simp: prefix_def)

lemma distinct_renamed:
  "distinct (map fst d) \<Longrightarrow>
   distinct (map fst (map (\<lambda>(k, v). (drop (length p) k, v)) (filter (\<lambda>(k, v). prefix p k) d)))"
proof (induction d)
  case Nil
  show ?case by simp
next
  case (Cons e d)
  obtain k v where e: "e = (k, v)" by (cases e)
  show ?case
  proof (cases "prefix p k")
    case False
    with Cons e show ?thesis by simp
  next
    case True
    have "drop (length p) k \<noteq> drop (length p) k'"
      if "(k', v') \<in> set d" and "prefix p k'" for k' v'
    proof
      assume "drop (length p) k = drop (length p) k'"
      with True that(2) have "k = k'" by (rule drop_prefix_inj)
      with that(1) Cons.prems e show False by (auto simp: image_iff)
    qed
    with Cons e True show ?thesis by (auto simp: image_iff)
  qed
qed

lemma filter_kwargs_items_eq:
  assumes "distinct (map fst d)"
  shows "filter_kwargs_items d p =
         map (\<lambda>(k, v). (drop (length p) k, v)) (filter (\<lambda>(k, v). prefix p k) d)"
  unfolding filter_kwargs_items_def filter_kwargs_renamed
  by (rule dict_update_empty) (rule distinct_renamed [OF assms])

lemma filter_kwargs_items_lookup:
  assumes "distinct (map fst d)"
  shows "(map_of (filter_kwargs_items d p) k' = Some v) =
         (\<exists>k. map_of d k = Some v \<and> startswith k p \<and> k' = str_replace p [] (Some 1) k)"
proof -
  let ?r = "map (\<lambda>(k, v). (drop (length p) k, v)) (filter (\<lambda>(k, v). prefix p k) d)"
  have "(map_of ?r k' = Some v) = ((k', v) \<in> set ?r)"
    using distinct_renamed [OF assms] by (rule map_of_eq_Some_iff)
  also have "\<dots> = (\<exists>k. (k, v) \<in> set d \<and> prefix p k \<and> k' = drop (length p) k)"
    by auto
  also have "\<dots> = (\<exists>k. map_of d k = Some v \<and> startswith k p
                        \<and> k' = str_replace p [] (Some 1) k)"
    using assms by (auto simp: startswith_def str_replace_prefix)
  finally show ?thesis by (simp add: filter_kwargs_items_eq [OF assms])
qed

lemma filter_kwargs_items_empty_prefix:
  assumes "distinct (map fst d)"
  shows "filter_kwargs_items d [] = d"
proof -
  have "map (\<lambda>(k, v). (drop (length ([] :: string)) k, v))
          (filter (\<lambda>(k, v). prefix [] k) d) = d"
    by (induction d) auto
  with filter_kwargs_items_eq [OF assms, of "[]"] show ?thesis by simp
qed

text \<open>
  C4. For a dictionary \<open>d\<close> (the object at \<open>a\<close>) and a prefix \<open>p\<close>, \<open>filter_kwargs\<close> returns
  a new dictionary: its reference is not one of the store, and the objects of the store are
  as they were. The new dictionary maps \<open>k'\<close> to \<open>v\<close> exactly when \<open>d\<close> maps to \<open>v\<close> some key
  \<open>k\<close> that starts with \<open>p\<close> and \<open>k'\<close> is \<open>k\<close> with the first occurrence of \<open>p\<close> removed.
\<close>

theorem filter_kwargs_spec:
  assumes "a < length h" and "distinct (map fst (h ! a))"
  shows "(case filter_kwargs h a p of
            (h', r) \<Rightarrow>
              r = length h \<and> length h' = Suc (length h) \<and> take (length h) h' = h
              \<and> distinct (map fst (h' ! r))
              \<and> (\<forall>k' v. (map_of (h' ! r) k' = Some v) =
                    (\<exists>k. map_of (h ! a) k = Some v \<and> startswith k p
                         \<and> k' = str_replace p [] (Some 1) k)))"
proof -
  have "distinct (map fst (filter_kwargs_items (h ! a) p))"
    unfolding filter_kwargs_items_eq [OF assms(2)] by (rule distinct_renamed [OF assms(2)])
  then show ?thesis
    by (simp add: filter_kwargs_def filter_kwargs_items_lookup [OF assms(2)])
qed

theorem filter_kwargs_spec_witness:
  "0 < length [example_dict] \<and> distinct (map fst ([example_dict] ! 0))
   \<and> filter_kwargs [example_dict] 0 ''a_'' =
       ([example_dict, [(''b'', PInt 1), (''c'', PInt 2)]], 1)
   \<and> filter_kwargs [example_dict] 0 ''b_'' = ([example_dict, [(''abc'', PStr ''x'')]], 1)
   \<and> filter_kwargs [example_dict] 0 ''z_'' = ([example_dict, []], 1)
   \<and> (\<exists>k. map_of example_dict k = Some (PInt 2) \<and> startswith k ''a_''
          \<and> ''c'' = str_replace ''a_'' [] (Some 1) k)"
proof -
  have h1: "0 < length [example_dict]"
    by simp
  have h2: "distinct (map fst ([example_dict] ! 0))"
    by (simp add: example_dict_def)
  have r1: "filter_kwargs [example_dict] 0 ''a_'' =
      ([example_dict, [(''b'', PInt 1), (''c'', PInt 2)]], 1)"
    by (simp add: filter_kwargs_def filter_kwargs_items_def startswith_def example_dict_def)
  have r2: "filter_kwargs [example_dict] 0 ''b_'' = ([example_dict, [(''abc'', PStr ''x'')]], 1)"
    by (simp add: filter_kwargs_def filter_kwargs_items_def startswith_def example_dict_def)
  have r3: "filter_kwargs [example_dict] 0 ''z_'' = ([example_dict, []], 1)"
    by (simp add: filter_kwargs_def filter_kwargs_items_def startswith_def example_dict_def)
  from filter_kwargs_spec [OF h1 h2, of "''a_''"]
  have "\<forall>k' v. (map_of [(''b'', PInt 1), (''c'', PInt 2)] k' = Some v) =
          (\<exists>k. map_of example_dict k = Some v \<and> startswith k ''a_''
               \<and> k' = str_replace ''a_'' [] (Some 1) k)"
    by (simp add: r1)
  then have "(map_of [(''b'', PInt 1), (''c'', PInt 2)] ''c'' = Some (PInt 2)) =
          (\<exists>k. map_of example_dict k = Some (PInt 2) \<and> startswith k ''a_''
               \<and> ''c'' = str_replace ''a_'' [] (Some 1) k)"
    by blast
  then have "\<exists>k. map_of example_dict k = Some (PInt 2) \<and> startswith k ''a_''
          \<and> ''c'' = str_replace ''a_'' [] (Some 1) k"
    by simp
  with h1 h2 r1 r2 r3 show ?thesis by blast
qed

text \<open>
  C10. \<open>filter_kwargs\<close> changes no object of the store, its argument included, whatever the
  prefix; and with the empty prefix the dictionary it returns is equal to its argument.
\<close>

theorem filter_kwargs_pure_and_empty_prefix:
  assumes "a < length h" and "distinct (map fst (h ! a))"
  shows "take (length h) (fst (filter_kwargs h a p)) = h
         \<and> fst (filter_kwargs h a p) ! a = h ! a
         \<and> snd (filter_kwargs h a p) \<noteq> a
         \<and> fst (filter_kwargs h a []) ! snd (filter_kwargs h a []) = h ! a"
  using assms
  by (simp add: filter_kwargs_def nth_append filter_kwargs_items_empty_prefix)

theorem filter_kwargs_pure_and_empty_prefix_witness:
  "0 < length [example_dict] \<and> distinct (map fst ([example_dict] ! 0))
   \<and> fst (filter_kwargs [example_dict] 0 ''a_'') ! 0 = example_dict
   \<and> fst (filter_kwargs [example_dict] 0 []) ! snd (filter_kwargs [example_dict] 0 [])
       = example_dict
   \<and> filter_kwargs [example_dict] 0 [] = ([example_dict, example_dict], 1)"
proof -
  have h1: "0 < length [example_dict]"
    by simp
  have h2: "distinct (map fst ([example_dict] ! 0))"
    by (simp add: example_dict_def)
  have run: "filter_kwargs [example_dict] 0 [] = ([example_dict, example_dict], 1)"
    by (simp add: filter_kwargs_def filter_kwargs_items_def startswith_def example_dict_def)
  from filter_kwargs_pure_and_empty_prefix [OF h1 h2, of "''a_''"]
  have "fst (filter_kwargs [example_dict] 0 ''a_'') ! 0 = example_dict
        \<and> fst (filter_kwargs [example_dict] 0 []) ! snd (filter_kwargs [example_dict] 0 [])
            = example_dict"
    by simp
  with h1 h2 run show ?thesis by blast
qed

section \<open>Properties of remove\_params\<close>

lemma keys_without_keys: "fst ` set (without_keys ks d) = fst ` set d - set ks"
  by (auto simp: without_keys_def image_iff)

lemma map_of_without_keys:
  "map_of (without_keys ks d) k = (if k \<in> set ks then None else map_of d k)"
  unfolding without_keys_def by (induction d) auto

lemma without_keys_Nil: "without_keys [] d = d"
  by (simp add: without_keys_def)

lemma without_keys_Cons: "without_keys ks (dict_del p d) = without_keys (p # ks) d"
  unfolding without_keys_def dict_del_def by (induction d) auto

lemma dict_pop_present:
  "p \<in> fst ` set d \<Longrightarrow> \<exists>v. dict_pop d p = Inr (v, dict_del p d)"
  by (cases "map_of d p") (auto simp: dict_pop_def map_of_eq_None_iff)

lemma dict_pop_absent: "p \<notin> fst ` set d \<Longrightarrow> dict_pop d p = Inl (KeyError p)"
  by (simp add: dict_pop_def map_of_eq_None_iff [THEN iffD2])

lemma keys_dict_del: "fst ` set (dict_del p d) = fst ` set d - {p}"
  by (auto simp: dict_del_def image_iff)

lemma remove_params_present:
  assumes "a < length h" and "distinct ps" and "set ps \<subseteq> fst ` set (h ! a)"
  shows "remove_params h a ps = (h[a := without_keys ps (h ! a)], Inr ())"
  using assms
proof (induction ps arbitrary: h)
  case Nil
  then show ?case by (simp add: without_keys_Nil)
next
  case (Cons p ps)
  let ?d = "dict_del p (h ! a)"
  let ?h = "h[a := ?d]"
  from Cons.prems obtain v where pop: "dict_pop (h ! a) p = Inr (v, ?d)"
    using dict_pop_present [of p "h ! a"] by auto
  have a: "a < length ?h" using Cons.prems(1) by simp
  have d: "?h ! a = ?d" using Cons.prems(1) by simp
  have ks: "set ps \<subseteq> fst ` set (?h ! a)"
    using Cons.prems(2,3) by (auto simp: d keys_dict_del)
  have "remove_params ?h a ps = (?h[a := without_keys ps (?h ! a)], Inr ())"
    using a ks Cons.prems(2) by (intro Cons.IH) simp_all
  then show ?case
    by (simp add: pop d without_keys_Cons)
qed

lemma remove_params_append:
  "remove_params h a (xs @ ys) =
     (case remove_params h a xs of
        (h', Inl e) \<Rightarrow> (h', Inl e)
      | (h', Inr u) \<Rightarrow> remove_params h' a ys)"
  by (induction xs arbitrary: h) (auto split: sum.splits prod.splits)

lemma remove_params_absent:
  assumes "a < length h" and "distinct xs" and "set xs \<subseteq> fst ` set (h ! a)"
    and "p \<notin> fst ` set (h ! a) - set xs"
  shows "remove_params h a (xs @ p # ys) = (h[a := without_keys xs (h ! a)], Inl (KeyError p))"
proof -
  have "p \<notin> fst ` set (without_keys xs (h ! a))"
    using assms(4) by (simp add: keys_without_keys)
  then have "dict_pop (without_keys xs (h ! a)) p = Inl (KeyError p)"
    by (rule dict_pop_absent)
  then show ?thesis
    using assms(1) by (simp add: remove_params_append remove_params_present [OF assms(1-3)])
qed

text \<open>
  Every key of the first \<open>n\<close> is present when its turn comes: these keys are distinct and
  all in the dictionary.
\<close>

lemma present_in_turn:
  assumes "n \<le> length ps" and "\<forall>j<n. ps ! j \<in> K - set (take j ps)"
  shows "distinct (take n ps) \<and> set (take n ps) \<subseteq> K"
  using assms
proof (induction n)
  case 0
  show ?case by simp
next
  case (Suc n)
  then have IH: "distinct (take n ps) \<and> set (take n ps) \<subseteq> K" by simp
  have n: "n < length ps" using Suc.prems(1) by simp
  have "ps ! n \<in> K - set (take n ps)" using Suc.prems(2) by simp
  with IH show ?case by (simp add: take_Suc_conv_app_nth [OF n])
qed

text \<open>
  C5, as the code has it. When the keys of \<open>ps\<close> are all in the dictionary and \<open>ps\<close> names
  no key twice, \<open>remove_params\<close> returns normally and has changed the dictionary in place:
  the same object, every other object untouched, holds no key of \<open>ps\<close>, and every entry
  whose key is not in \<open>ps\<close> is as it was.
\<close>

theorem remove_params_removes:
  assumes "a < length h" and "distinct ps" and "set ps \<subseteq> fst ` set (h ! a)"
  shows "\<exists>h'. remove_params h a ps = (h', Inr ())
           \<and> length h' = length h
           \<and> (\<forall>b. b \<noteq> a \<longrightarrow> h' ! b = h ! b)
           \<and> h' ! a = without_keys ps (h ! a)
           \<and> fst ` set (h' ! a) \<inter> set ps = {}
           \<and> (\<forall>k. k \<notin> set ps \<longrightarrow> map_of (h' ! a) k = map_of (h ! a) k)"
proof -
  let ?h = "h[a := without_keys ps (h ! a)]"
  have run: "remove_params h a ps = (?h, Inr ())"
    using assms by (rule remove_params_present)
  have at: "?h ! a = without_keys ps (h ! a)"
    using assms(1) by simp
  have "length ?h = length h" by simp
  moreover have "\<forall>b. b \<noteq> a \<longrightarrow> ?h ! b = h ! b" by simp
  moreover have "fst ` set (?h ! a) \<inter> set ps = {}"
    unfolding at keys_without_keys by blast
  moreover have "\<forall>k. k \<notin> set ps \<longrightarrow> map_of (?h ! a) k = map_of (h ! a) k"
    unfolding at by (simp add: map_of_without_keys)
  ultimately show ?thesis using run at by blast
qed

theorem remove_params_removes_witness:
  "0 < length abc_store \<and> distinct [''c'', ''a'']
   \<and> set [''c'', ''a''] \<subseteq> fst ` set (abc_store ! 0)
   \<and> remove_params abc_store 0 [''c'', ''a''] = ([[(''b'', PInt 2)]], Inr ())
   \<and> (\<exists>h'. remove_params abc_store 0 [''c'', ''a''] = (h', Inr ())
          \<and> fst ` set (h' ! 0) \<inter> set [''c'', ''a''] = {}
          \<and> map_of (h' ! 0) ''b'' = Some (PInt 2))"
proof -
  have h1: "0 < length abc_store"
    by (simp add: abc_store_def)
  have h2: "distinct [''c'', ''a'']"
    by simp
  have h3: "set [''c'', ''a''] \<subseteq> fst ` set (abc_store ! 0)"
    by (simp add: abc_store_def)
  have run: "remove_params abc_store 0 [''c'', ''a''] = ([[(''b'', PInt 2)]], Inr ())"
    by (simp add: abc_store_def dict_pop_def dict_del_def)
  from remove_params_removes [OF h1 h2 h3]
  obtain h' where h': "remove_params abc_store 0 [''c'', ''a''] = (h', Inr ())"
      "fst ` set (h' ! 0) \<inter> set [''c'', ''a''] = {}"
      "\<forall>k. k \<notin> set [''c'', ''a''] \<longrightarrow> map_of (h' ! 0) k = map_of (abc_store ! 0) k"
    by blast
  from h'(3) have "map_of (h' ! 0) ''b'' = Some (PInt 2)"
    by (simp add: abc_store_def)
  with h'(1,2) h1 h2 h3 run show ?thesis by blast
qed

text \<open>
  C5 as stated asks only that every key of \<open>ps\<close> is in the dictionary. With a key named
  twice the second \<open>pop\<close> raises, and a later key of \<open>ps\<close> is still in the dictionary.
\<close>

theorem remove_params_repeated_key_counterexample:
  "set [''a'', ''a'', ''b''] \<subseteq> fst ` set (abc_store ! 0)
   \<and> remove_params abc_store 0 [''a'', ''a'', ''b''] =
       ([[(''b'', PInt 2), (''c'', PInt 3)]], Inl (KeyError ''a''))
   \<and> ''b'' \<in> set [''a'', ''a'', ''b'']
   \<and> ''b'' \<in> fst ` set [(''b'', PInt 2), (''c'', PInt 3 :: pyval)]"
  by (simp add: abc_store_def dict_pop_def dict_del_def)

text \<open>
  C6. \<open>remove_params\<close> raises \<open>KeyError\<close> exactly when some key of \<open>ps\<close> is not in the
  dictionary when its turn comes, the keys before it being removed by then. At the first
  such key the loop ends with that key's \<open>KeyError\<close>, and the dictionary has lost exactly
  the keys of \<open>ps\<close> before it.
\<close>

theorem remove_params_raises:
  assumes "a < length h"
  shows "((\<exists>p. snd (remove_params h a ps) = Inl (KeyError p)) =
          (\<exists>i<length ps. ps ! i \<notin> fst ` set (h ! a) - set (take i ps)))
         \<and> (\<forall>i<length ps.
               ps ! i \<notin> fst ` set (h ! a) - set (take i ps)
               \<and> (\<forall>j<i. ps ! j \<in> fst ` set (h ! a) - set (take j ps))
               \<longrightarrow> remove_params h a ps =
                     (h[a := without_keys (take i ps) (h ! a)], Inl (KeyError (ps ! i))))"
proof -
  let ?K = "fst ` set (h ! a)"
  let ?absent = "\<lambda>i. i < length ps \<and> ps ! i \<notin> ?K - set (take i ps)"
  have first: "remove_params h a ps =
      (h[a := without_keys (take i ps) (h ! a)], Inl (KeyError (ps ! i)))"
    if i: "i < length ps" and absent: "ps ! i \<notin> ?K - set (take i ps)"
      and before: "\<forall>j<i. ps ! j \<in> ?K - set (take j ps)" for i
  proof -
    have "distinct (take i ps) \<and> set (take i ps) \<subseteq> ?K"
      using i before by (intro present_in_turn) simp_all
    then have "remove_params h a (take i ps @ ps ! i # drop (Suc i) ps) =
        (h[a := without_keys (take i ps) (h ! a)], Inl (KeyError (ps ! i)))"
      using assms absent by (intro remove_params_absent) simp_all
    then show ?thesis
      by (simp add: id_take_nth_drop [OF i, symmetric])
  qed
  have "\<exists>p. snd (remove_params h a ps) = Inl (KeyError p)" if "\<exists>i. ?absent i"
  proof -
    define i where "i = (LEAST i. ?absent i)"
    have abs: "?absent i"
      unfolding i_def using that by (rule LeastI_ex)
    have "\<not> ?absent j" if "j < i" for j
      using that not_less_Least unfolding i_def by blast
    then have "\<forall>j<i. ps ! j \<in> ?K - set (take j ps)"
      using abs by auto
    with abs have "remove_params h a ps =
        (h[a := without_keys (take i ps) (h ! a)], Inl (KeyError (ps ! i)))"
      by (intro first) simp_all
    then show ?thesis by simp
  qed
  moreover have "\<exists>i. ?absent i" if raised: "\<exists>p. snd (remove_params h a ps) = Inl (KeyError p)"
  proof (rule ccontr)
    assume "\<not> (\<exists>i. ?absent i)"
    then have "\<forall>j<length ps. ps ! j \<in> ?K - set (take j ps)" by blast
    then have "distinct (take (length ps) ps) \<and> set (take (length ps) ps) \<subseteq> ?K"
      by (intro present_in_turn) simp_all
    then have "remove_params h a ps = (h[a := without_keys ps (h ! a)], Inr ())"
      using assms by (intro remove_params_present) simp_all
    with raised show False by simp
  qed
  ultimately have "(\<exists>p. snd (remove_params h a ps) = Inl (KeyError p)) = (\<exists>i. ?absent i)"
    by blast
  with first show ?thesis by blast
qed

theorem remove_params_raises_witness:
  "0 < length abc_store
   \<and> remove_params abc_store 0 [''a'', ''z'', ''b''] =
       ([[(''b'', PInt 2), (''c'', PInt 3)]], Inl (KeyError ''z''))
   \<and> (\<exists>i<length [''a'', ''z'', ''b''].
         [''a'', ''z'', ''b''] ! i
           \<notin> fst ` set (abc_store ! 0) - set (take i [''a'', ''z'', ''b'']))
   \<and> remove_params abc_store 0 [''b'', ''c''] = ([[(''a'', PInt 1)]], Inr ())"
proof -
  have h1: "0 < length abc_store"
    by (simp add: abc_store_def)
  have run: "remove_params abc_store 0 [''a'', ''z'', ''b''] =
       ([[(''b'', PInt 2), (''c'', PInt 3)]], Inl (KeyError ''z''))"
    by (simp add: abc_store_def dict_pop_def dict_del_def)
  have ok: "remove_params abc_store 0 [''b'', ''c''] = ([[(''a'', PInt 1)]], Inr ())"
    by (simp add: abc_store_def dict_pop_def dict_del_def)
  have "\<exists>p. snd (remove_params abc_store 0 [''a'', ''z'', ''b'']) = Inl (KeyError p)"
    unfolding run by simp
  with remove_params_raises [OF h1, of "[''a'', ''z'', ''b'']"]
  have "\<exists>i<length [''a'', ''z'', ''b''].
         [''a'', ''z'', ''b''] ! i
           \<notin> fst ` set (abc_store ! 0) - set (take i [''a'', ''z'', ''b''])"
    by blast
  with h1 run ok show ?thesis by blast
qed

section \<open>Properties of setup\_logger\<close>

lemma the_logger_upd:
  "the_logger (reg(r \<mapsto> l)) q = (if q = r then l else the_logger reg q)"
  by (simp add: the_logger_def)

lemma handlers_getLogger [simp]:
  "logger_handlers (fst (getLogger name st)) q = logger_handlers st q"
  by (simp add: getLogger_def logger_handlers_def the_logger_upd Let_def)

lemma handlers_setLevel [simp]:
  "logger_handlers (setLevel r n st) q = logger_handlers st q"
  by (simp add: setLevel_def logger_handlers_def the_logger_upd)

lemma handlers_addHandler [simp]:
  "logger_handlers (addHandler r hdlr st) q =
     (if q = r then logger_handlers st r @ [hdlr] else logger_handlers st q)"
  by (simp add: addHandler_def logger_handlers_def the_logger_upd)

lemma handlers_info [simp]: "logger_handlers (info r msg st) q = logger_handlers st q"
  by (simp add: info_def logger_handlers_def)

lemma snd_getLogger [simp]: "snd (getLogger name st) = logger_key name"
  by (simp add: getLogger_def Let_def)

lemma registry_info [simp]: "registry (info r msg st) = registry st"
  by (simp add: info_def)





lemma tagged_info [simp]: "tagged name r (info q msg st) = tagged name r st"
  by (simp add: tagged_def)





text \<open>
  Another call that raises: a format string that the format check rejects, with a level
  that is given. The level of the logger is set by then, and no handler is attached.
\<close>

lemma setup_logger_rejected_format:
  assumes "tagged name (logger_key name) st = []" and "f \<noteq> []" and "\<not> format_ok f"
  shows "snd (setup_logger format_ok name (Some n) (Some f) st) = Inl ValueError
         \<and> tagged name (logger_key name)
              (fst (setup_logger format_ok name (Some n) (Some f) st)) = []
         \<and> logger_level (the_logger
              (registry (fst (setup_logger format_ok name (Some n) (Some f) st)))
              (logger_key name)) = n"
proof -
  obtain st1 where g: "getLogger name st = (st1, logger_key name)"
    using snd_getLogger [of name st] by (cases "getLogger name st") auto
  have h1: "logger_handlers st1 r = logger_handlers st r" for r
    using g handlers_getLogger [of name st r] by simp
  have ex: "\<not> list_ex (\<lambda>h. handler_name h = name) (logger_handlers st1 (logger_key name))"
    using assms(1) by (simp add: list_ex_iff tagged_def filter_empty_conv h1)
  have run: "setup_logger format_ok name (Some n) (Some f) st =
      (setLevel (logger_key name) n st1, Inl ValueError)"
    unfolding setup_logger_def g using ex assms(2,3) by (simp add: Let_def)
  have "tagged name (logger_key name) (setLevel (logger_key name) n st1) = []"
    using assms(1) by (simp add: tagged_def h1)
  moreover have "logger_level (the_logger (registry (setLevel (logger_key name) n st1))
      (logger_key name)) = n"
    by (simp add: setLevel_def the_logger_upd)
  ultimately show ?thesis
    by (simp add: run)
qed




end
